theory Spec2Isabelle
  imports Main "HOL-Library.Word" "HOL-Library.AList" "HOL-Library.Sublist"
begin

section \<open>Strings and path names\<close>

text \<open>
  The source is \<^verbatim>\<open>src/app.py\<close>. File names and form values are Python \<^verbatim>\<open>str\<close>
  values, modelled as \<^typ>\<open>string\<close>; file contents are byte strings.
\<close>

type_synonym bytes = "8 word list"

text \<open>
  \<^verbatim>\<open>s.index(sub)\<close>: the lowest position at which \<^verbatim>\<open>sub\<close> occurs in \<^verbatim>\<open>s\<close>.
  Python raises \<^verbatim>\<open>ValueError\<close> when there is none; here that is \<open>None\<close>, and the
  caller turns it into the error.
\<close>

fun str_index :: "string \<Rightarrow> string \<Rightarrow> nat option" where
  "str_index [] sub = (if sub = [] then Some 0 else None)"
| "str_index (c # cs) sub =
     (if prefix sub (c # cs) then Some 0 else map_option Suc (str_index cs sub))"

text \<open>\<^verbatim>\<open>s.rfind(ch)\<close>: the highest position of the character, \<open>None\<close> for Python's \<open>-1\<close>.\<close>

fun rfind :: "string \<Rightarrow> char \<Rightarrow> nat option" where
  "rfind [] ch = None"
| "rfind (c # cs) ch =
     (case rfind cs ch of
        Some i \<Rightarrow> Some (Suc i)
      | None \<Rightarrow> if c = ch then Some 0 else None)"

text \<open>
  \<^verbatim>\<open>PurePath.stem\<close> of pathlib, on the final component \<^verbatim>\<open>name\<close>:
  \<^verbatim>\<open>i = name.rfind('.'); return name[:i] if 0 < i < len(name) - 1 else name\<close>.
\<close>

definition stem :: "string \<Rightarrow> string" where
  "stem name =
     (case rfind name CHR ''.'' of
        Some i \<Rightarrow> if 0 < i \<and> i + 1 < length name then take i name else name
      | None \<Rightarrow> name)"

text \<open>\<^verbatim>\<open>s.split('/')\<close>: the pieces between the separators, never an empty list.\<close>

fun split_sep :: "string \<Rightarrow> string list" where
  "split_sep [] = [[]]"
| "split_sep (c # cs) =
     (if c = CHR ''/'' then [] # split_sep cs
      else (case split_sep cs of [] \<Rightarrow> [[c]] | piece # pieces \<Rightarrow> (c # piece) # pieces))"

text \<open>
  A pathlib path on a POSIX system: whether it starts at the root, and its components.
  Parsing a string drops empty components and \<^verbatim>\<open>.\<close> components and keeps \<^verbatim>\<open>..\<close>.
\<close>

record path =
  anchored :: bool
  parts :: "string list"

definition Path :: "string \<Rightarrow> path" where
  "Path s = \<lparr> anchored = prefix ''/'' s,
              parts = filter (\<lambda>c. c \<noteq> [] \<and> c \<noteq> ''.'') (split_sep s) \<rparr>"

text \<open>\<^verbatim>\<open>Path.parent\<close>: the path without its last component (a path with none is its own parent).\<close>

definition parent :: "path \<Rightarrow> path" where
  "parent p = p \<lparr> parts := butlast (parts p) \<rparr>"

section \<open>The file system\<close>

text \<open>
  A directory lists its entries in the order in which the operating system enumerates
  them. A regular file has its contents.
\<close>

datatype node = File bytes | Dir "(string \<times> node) list"

record filesystem =
  tree :: node
  cwd :: "string list"

datatype error =
    BadRequestKeyError string
  | KeyError string
  | IndexError
  | ValueError
  | IsADirectoryError
  | NotADirectoryError
  | FileNotFoundError
  | FileExistsError
  | GenerationError string

fun lookup :: "node \<Rightarrow> string list \<Rightarrow> node option" where
  "lookup n [] = Some n"
| "lookup (File b) (c # cs) = None"
| "lookup (Dir es) (c # cs) =
     (case map_of es c of None \<Rightarrow> None | Some n \<Rightarrow> lookup n cs)"

definition is_dir_at :: "node \<Rightarrow> string list \<Rightarrow> bool" where
  "is_dir_at root loc = (case lookup root loc of Some (Dir es) \<Rightarrow> True | _ \<Rightarrow> False)"

text \<open>
  One step of path resolution, from the location \<open>acc\<close>. The component \<^verbatim>\<open>..\<close> steps up
  where \<open>acc\<close> is an existing directory. Where it is not, the operating system finds
  nothing; here the component stays in the location, and a location that goes on below
  something that is no directory names nothing.
\<close>

definition descend :: "node \<Rightarrow> string list \<Rightarrow> string \<Rightarrow> string list" where
  "descend root acc c = (if c = ''..'' \<and> is_dir_at root acc then butlast acc else acc @ [c])"

text \<open>
  Where a path leads: from the root when anchored, from the working directory
  otherwise, one component after the other.
\<close>

definition resolve :: "filesystem \<Rightarrow> path \<Rightarrow> string list" where
  "resolve fs p =
     foldl (descend (tree fs)) (if anchored p then [] else cwd fs) (parts p)"

definition is_dir :: "filesystem \<Rightarrow> path \<Rightarrow> bool" where
  "is_dir fs p = is_dir_at (tree fs) (resolve fs p)"

text \<open>
  A location that goes on below something that is no directory.
\<close>

definition stuck :: "node \<Rightarrow> string list \<Rightarrow> bool" where
  "stuck root acc \<longleftrightarrow> (\<exists>a rest. acc = a @ rest \<and> rest \<noteq> [] \<and> \<not> is_dir_at root a)"

text \<open>
  Walking to a location: \<^verbatim>\<open>FileNotFoundError\<close> where an entry is missing,
  \<^verbatim>\<open>NotADirectoryError\<close> where the walk would go on below a regular file.
\<close>

fun probe :: "node \<Rightarrow> string list \<Rightarrow> error + node" where
  "probe n [] = Inr n"
| "probe (File b) (c # cs) = Inl NotADirectoryError"
| "probe (Dir es) (c # cs) =
     (case map_of es c of None \<Rightarrow> Inl FileNotFoundError | Some n \<Rightarrow> probe n cs)"

text \<open>A new, empty directory at a location, as the last entry of its parent.\<close>

fun add_dir :: "node \<Rightarrow> string list \<Rightarrow> node" where
  "add_dir (File b) cs = File b"
| "add_dir (Dir es) [] = Dir es"
| "add_dir (Dir es) (c # cs) =
     (if cs = [] then Dir (es @ [(c, Dir [])])
      else (case map_of es c of
              None \<Rightarrow> Dir es
            | Some n \<Rightarrow> Dir (AList.update c (add_dir n cs) es)))"

text \<open>
  \<^verbatim>\<open>os.mkdir(p)\<close>: the parent must exist and be a directory, and the last component
  must not exist yet.
\<close>

definition os_mkdir :: "filesystem \<Rightarrow> path \<Rightarrow> error + filesystem" where
  "os_mkdir fs p =
     (let loc = resolve fs p in
      if loc = [] then Inl FileExistsError
      else
        (case probe (tree fs) (butlast loc) of
           Inl e \<Rightarrow> Inl e
         | Inr (File b) \<Rightarrow> Inl NotADirectoryError
         | Inr (Dir es) \<Rightarrow>
             (case map_of es (last loc) of
                Some n \<Rightarrow> Inl FileExistsError
              | None \<Rightarrow> Inr (fs \<lparr> tree := add_dir (tree fs) loc \<rparr>))))"

text \<open>
  \<^verbatim>\<open>Path.mkdir(parents=False, exist_ok=True)\<close> of pathlib: \<^verbatim>\<open>FileNotFoundError\<close> is
  raised again; any other error of \<^verbatim>\<open>os.mkdir\<close> is dropped when the path is a directory.
\<close>

definition mkdir_exist_ok :: "filesystem \<Rightarrow> path \<Rightarrow> error + filesystem" where
  "mkdir_exist_ok fs p =
     (case os_mkdir fs p of
        Inr fs' \<Rightarrow> Inr fs'
      | Inl e \<Rightarrow>
          if e = FileNotFoundError then Inl e
          else if is_dir fs p then Inr fs
          else Inl e)"

text \<open>
  \<^verbatim>\<open>Path.mkdir(parents=True, exist_ok=True)\<close> of pathlib, by recursion on the components
  from the last one back (\<open>rparts\<close> is the reversed list): on \<^verbatim>\<open>FileNotFoundError\<close> the
  parent is made in the same way and the directory is then made with
  \<^verbatim>\<open>parents=False\<close>; a path without components is its own parent.
\<close>

fun mkdir_parents :: "filesystem \<Rightarrow> bool \<Rightarrow> string list \<Rightarrow> error + filesystem" where
  "mkdir_parents fs a [] = mkdir_exist_ok fs \<lparr> anchored = a, parts = [] \<rparr>"
| "mkdir_parents fs a (c # rparts) =
     (case os_mkdir fs \<lparr> anchored = a, parts = rev (c # rparts) \<rparr> of
        Inr fs' \<Rightarrow> Inr fs'
      | Inl e \<Rightarrow>
          if e = FileNotFoundError then
            (case mkdir_parents fs a rparts of
               Inl e' \<Rightarrow> Inl e'
             | Inr fs1 \<Rightarrow> mkdir_exist_ok fs1 \<lparr> anchored = a, parts = rev (c # rparts) \<rparr>)
          else if is_dir fs \<lparr> anchored = a, parts = rev (c # rparts) \<rparr> then Inr fs
          else Inl e)"

definition mkdir :: "filesystem \<Rightarrow> path \<Rightarrow> error + filesystem" where
  "mkdir fs p = mkdir_parents fs (anchored p) (rev (parts p))"

text \<open>
  \<^verbatim>\<open>shutil.rmtree(p, ignore_errors=True)\<close>: a directory goes with everything below it;
  a missing path or a regular file is an error, which is ignored, and nothing changes.
  The root directory itself cannot be removed, only emptied.
\<close>

fun rmtree_node :: "node \<Rightarrow> string list \<Rightarrow> node" where
  "rmtree_node (File b) cs = File b"
| "rmtree_node (Dir es) [] = Dir []"
| "rmtree_node (Dir es) (c # cs) =
     (case map_of es c of
        None \<Rightarrow> Dir es
      | Some n \<Rightarrow>
          if cs = [] then (case n of Dir _ \<Rightarrow> Dir (AList.delete c es) | File _ \<Rightarrow> Dir es)
          else Dir (AList.update c (rmtree_node n cs) es))"

definition rmtree :: "filesystem \<Rightarrow> path \<Rightarrow> filesystem" where
  "rmtree fs p = fs \<lparr> tree := rmtree_node (tree fs) (resolve fs p) \<rparr>"

text \<open>
  \<^verbatim>\<open>list(Path(directory).glob('*' + suf))\<close>: the entries of the directory whose name ends
  with \<open>suf\<close>, in enumeration order, each with what it names. The pattern's star also
  matches the empty string and a leading dot; a path that is no directory has no entries.
\<close>

definition glob :: "filesystem \<Rightarrow> path \<Rightarrow> string \<Rightarrow> (string \<times> node) list" where
  "glob fs p suf =
     (case lookup (tree fs) (resolve fs p) of
        Some (Dir es) \<Rightarrow> filter (\<lambda>(name, n). suffix suf name) es
      | _ \<Rightarrow> [])"

section \<open>The output packager\<close>

text \<open>
  The archive written through \<^verbatim>\<open>zipfile.ZipFile\<close> is modelled by what was written to
  it: the compression method and the members in the order of the writes, each with its
  archive name and its uncompressed contents. The byte encoding is the library's.
\<close>

datatype compression = ZIP_STORED | ZIP_DEFLATED

record zipfile =
  compress_type :: compression
  members :: "(string \<times> bytes) list"

text \<open>
  \<^verbatim>\<open>zipf.write(file, arcname=name)\<close> adds a regular file under the given name with
  its contents; a directory becomes an empty member whose name ends with a slash.
\<close>

fun zip_write :: "zipfile \<Rightarrow> string \<times> node \<Rightarrow> zipfile" where
  "zip_write z (name, File b) = z \<lparr> members := members z @ [(name, b)] \<rparr>"
| "zip_write z (name, Dir es) = z \<lparr> members := members z @ [(name @ ''/'', [])] \<rparr>"

text \<open>The loop \<^verbatim>\<open>for file in files: zipf.write(file, arcname=file.name)\<close>.\<close>

fun zip_write_all :: "zipfile \<Rightarrow> (string \<times> node) list \<Rightarrow> zipfile" where
  "zip_write_all z [] = z"
| "zip_write_all z (f # fs) = zip_write_all (zip_write z f) fs"

text \<open>The in-memory buffer that is returned: the bytes read from one file, or an archive.\<close>

datatype payload = Raw bytes | Archive zipfile

text \<open>
  \<^verbatim>\<open>make_one_bytesio_file(directory)\<close>, lines 34 to 52. The archive is written before
  the name is derived, so \<^verbatim>\<open>files[0]\<close> on an empty list and a stem without the token
  raise after the loop.
\<close>

definition make_one_bytesio_file :: "filesystem \<Rightarrow> string \<Rightarrow> error + (payload \<times> string)" where
  "make_one_bytesio_file fs directory =
     (let files = glob fs (Path directory) ''.epub'' in
      if length files = 1 then
        (case snd (files ! 0) of
           File b \<Rightarrow> Inr (Raw b, fst (files ! 0))
         | Dir _ \<Rightarrow> Inl IsADirectoryError)
      else
        (let zipf = zip_write_all \<lparr> compress_type = ZIP_DEFLATED, members = [] \<rparr> files in
         case files of
           [] \<Rightarrow> Inl IndexError
         | f # _ \<Rightarrow>
             (case str_index (stem (fst f)) ''_Volume_'' of
                None \<Rightarrow> Inl ValueError
              | Some i \<Rightarrow> Inr (Archive zipf, take i (stem (fst f)) @ ''.zip''))))"

section \<open>The request handler\<close>

text \<open>
  The options handed to the generation routine, fixed when the process starts
  (the dictionary \<^verbatim>\<open>args\<close>, lines 118 to 120).
\<close>

record jncep_args =
  email :: string
  password :: string
  is_by_volume :: bool
  is_extract_images :: bool
  is_extract_content :: bool
  is_not_replace_chars :: bool
  style_css_path :: bool

record env =
  environ :: "string \<rightharpoonup> string"
  args :: jncep_args

text \<open>What the handler reads of the Flask request: the caller's address and the form.\<close>

record request =
  remote_addr :: string
  form :: "string \<rightharpoonup> string"

text \<open>
  The calls the handler makes to its collaborators, in order. They are recorded so that
  "is invoked" and "is not invoked" can be stated.
\<close>

datatype call =
    GenerateEpub string string string
  | MakeOneBytesioFile string
  | Rmtree path

record world =
  disk :: filesystem
  calls :: "call list"

fun is_package :: "call \<Rightarrow> bool" where
  "is_package (MakeOneBytesioFile d) = True"
| "is_package c = False"

fun is_rmtree :: "call \<Rightarrow> bool" where
  "is_rmtree (Rmtree p) = True"
| "is_rmtree c = False"

text \<open>
  \<^verbatim>\<open>generate_epub.callback\<close> of the jncep library is not part of this repository: it is
  a parameter. It receives the URL, the options, the part specifier and the output
  directory (as the string built by the caller), works on the file system, and either
  returns or raises.
\<close>

type_synonym generator =
  "string \<Rightarrow> jncep_args \<Rightarrow> string \<Rightarrow> string \<Rightarrow> filesystem \<Rightarrow> (error + unit) \<times> filesystem"

text \<open>
  \<^verbatim>\<open>create_epub(jnc_url, part_spec)\<close>, lines 19 to 31. The argument \<open>timestamp\<close> is the
  clock reading as \<^verbatim>\<open>strftime('%Y-%m-%d_%H-%M_%f')\<close> prints it. Logging is left out
  here and in the handler.
\<close>

definition create_epub ::
  "generator \<Rightarrow> env \<Rightarrow> request \<Rightarrow> string \<Rightarrow> string \<Rightarrow> string \<Rightarrow> world \<Rightarrow> (error + string) \<times> world"
where
  "create_epub generate_epub e req timestamp jnc_url part_spec w =
     (case environ e ''JNCEP_OUTPUT'' of
        None \<Rightarrow> (Inl (KeyError ''JNCEP_OUTPUT''), w)
      | Some out \<Rightarrow>
          (let output_dirpath = out @ ''/'' @ remote_addr req @ ''/'' @ timestamp in
           case mkdir (disk w) (Path output_dirpath) of
             Inl err \<Rightarrow> (Inl err, w)
           | Inr d \<Rightarrow>
               (case generate_epub jnc_url (args e) part_spec output_dirpath d of
                  (Inl err, d') \<Rightarrow>
                    (Inl err, \<lparr> disk = d',
                       calls = calls w @ [GenerateEpub jnc_url part_spec output_dirpath] \<rparr>)
                | (Inr u, d') \<Rightarrow>
                    (Inr output_dirpath, \<lparr> disk = d',
                       calls = calls w @ [GenerateEpub jnc_url part_spec output_dirpath] \<rparr>))))"

record response =
  body :: payload
  download_name :: string
  as_attachment :: bool

definition send_file :: "payload \<Rightarrow> string \<Rightarrow> bool \<Rightarrow> response" where
  "send_file file_object filename attach =
     \<lparr> body = file_object, download_name = filename, as_attachment = attach \<rparr>"

text \<open>
  \<^verbatim>\<open>index()\<close>, lines 63 to 84. \<^verbatim>\<open>request.form[key]\<close> raises \<^verbatim>\<open>BadRequestKeyError\<close> for
  a missing key: first at line 67, where the URL is formatted into a log message, then
  at line 74, where both fields are read as the arguments of \<^verbatim>\<open>create_epub\<close>. The test
  \<^verbatim>\<open>request.form.get("prepub_parts")\<close> at line 68 raises nothing and only selects a log
  message. An exception leaves the handler at once: \<open>Inl\<close>, with the world as it is then.
\<close>

definition index ::
  "generator \<Rightarrow> env \<Rightarrow> request \<Rightarrow> string \<Rightarrow> world \<Rightarrow> (error + response) \<times> world"
where
  "index generate_epub e req timestamp w =
     (case form req ''jnovelclub_url'' of
        None \<Rightarrow> (Inl (BadRequestKeyError ''jnovelclub_url''), w)
      | Some jnc_url \<Rightarrow>
          (case form req ''prepub_parts'' of
             None \<Rightarrow> (Inl (BadRequestKeyError ''prepub_parts''), w)
           | Some part_spec \<Rightarrow>
               (case create_epub generate_epub e req timestamp jnc_url part_spec w of
                  (Inl err, w1) \<Rightarrow> (Inl err, w1)
                | (Inr epub_path, w1) \<Rightarrow>
                    (let w2 = w1 \<lparr> calls := calls w1 @ [MakeOneBytesioFile epub_path] \<rparr> in
                     case make_one_bytesio_file (disk w2) epub_path of
                       Inl err \<Rightarrow> (Inl err, w2)
                     | Inr (file_object, filename) \<Rightarrow>
                         (Inr (send_file file_object filename True),
                          w2 \<lparr> disk := rmtree (disk w2) (parent (Path epub_path)),
                               calls := calls w2 @ [Rmtree (parent (Path epub_path))] \<rparr>)))))"



text \<open>
  A string that is one path component: what an address and a printed timestamp are.
\<close>

definition is_component :: "string \<Rightarrow> bool" where
  "is_component c \<longleftrightarrow> c \<noteq> [] \<and> c \<noteq> ''.'' \<and> c \<noteq> ''..'' \<and> CHR ''/'' \<notin> set c"

section \<open>Example inputs\<close>

text \<open>
  Concrete directories, requests and generation routines on which the functions are
  evaluated below.
\<close>

definition two_volumes :: filesystem where
  "two_volumes =
     \<lparr> tree = Dir [(''srv'', Dir [(''MySeries_Volume_1.epub'', File [1, 2]),
                                  (''notes.txt'', File [9]),
                                  (''MySeries_Volume_2.epub'', File [3])])],
       cwd = [] \<rparr>"

definition one_volume :: filesystem where
  "one_volume =
     \<lparr> tree = Dir [(''srv'', Dir [(''notes.txt'', File [9]),
                                  (''MySeries_Volume_1.epub'', File [1, 2])])],
       cwd = [] \<rparr>"

definition no_volume :: filesystem where
  "no_volume = \<lparr> tree = Dir [(''srv'', Dir [(''notes.txt'', File [9])])], cwd = [] \<rparr>"

definition unnamed_volumes :: filesystem where
  "unnamed_volumes =
     \<lparr> tree = Dir [(''srv'', Dir [(''a.epub'', File [1]), (''b.epub'', File [2])])],
       cwd = [] \<rparr>"



definition example_args :: jncep_args where
  "example_args =
     \<lparr> email = ''reader@example.org'', password = ''secret'', is_by_volume = True,
       is_extract_images = False, is_extract_content = False,
       is_not_replace_chars = False, style_css_path = False \<rparr>"

definition example_env :: env where
  "example_env = \<lparr> environ = [''JNCEP_OUTPUT'' \<mapsto> ''out''], args = example_args \<rparr>"

definition example_request :: request where
  "example_request =
     \<lparr> remote_addr = ''203.0.113.7'',
       form = [''jnovelclub_url'' \<mapsto> ''https://j-novel.club/series/my-series'',
               ''prepub_parts'' \<mapsto> []] \<rparr>"

definition request_empty_url :: request where
  "request_empty_url =
     \<lparr> remote_addr = ''203.0.113.7'',
       form = [''jnovelclub_url'' \<mapsto> [], ''prepub_parts'' \<mapsto> []] \<rparr>"

definition request_no_url :: request where
  "request_no_url = \<lparr> remote_addr = ''203.0.113.7'', form = [''prepub_parts'' \<mapsto> []] \<rparr>"

definition request_no_parts :: request where
  "request_no_parts =
     \<lparr> remote_addr = ''203.0.113.7'',
       form = [''jnovelclub_url'' \<mapsto> ''https://j-novel.club/series/my-series''] \<rparr>"

definition example_world :: world where
  "example_world =
     \<lparr> disk = \<lparr> tree = Dir [(''app'', Dir [(''out'', Dir [(''203.0.113.7'',
                       Dir [(''2024-05-05_01-02_000001'', Dir [(''Old_Volume_1.epub'', File [7])])])])])],
                cwd = [''app''] \<rparr>,
       calls = [] \<rparr>"

definition failing_generator :: generator where
  "failing_generator jnc_url a part_spec output_dirpath d = (Inl (GenerationError ''login failed''), d)"

definition volumes_generator :: generator where
  "volumes_generator jnc_url a part_spec output_dirpath d =
     (Inr (),
      d \<lparr> tree := Dir [(''app'', Dir [(''out'', Dir [(''203.0.113.7'',
             Dir [(''2024-05-05_01-02_000001'', Dir [(''Old_Volume_1.epub'', File [7])]),
                  (''2024-05-06_07-08_123456'',
                     Dir [(''MySeries_Volume_1.epub'', File [1, 2]),
                          (''MySeries_Volume_2.epub'', File [3])])])])])] \<rparr>)"

definition example_timestamp :: string where
  "example_timestamp = ''2024-05-06_07-08_123456''"

definition example_dirpath :: string where
  "example_dirpath = ''out/203.0.113.7/2024-05-06_07-08_123456''"

section \<open>Facts about strings and paths\<close>

text \<open>
  \<open>str_index\<close> finds the first occurrence: it is \<open>None\<close> exactly when the token
  starts at no position, and \<open>Some i\<close> exactly when it starts at \<open>i\<close> and at no earlier
  position.
\<close>

lemma str_index_None: "str_index s sub = None \<longleftrightarrow> (\<forall>j\<le>length s. \<not> prefix sub (drop j s))"
proof (induction s)
  case Nil
  then show ?case by auto
next
  case (Cons c cs)
  have split: "(\<forall>j\<le>Suc (length cs). \<not> prefix sub (drop j (c # cs))) \<longleftrightarrow>
      (\<not> prefix sub (c # cs) \<and> (\<forall>j\<le>length cs. \<not> prefix sub (drop j cs)))"
    (is "?L \<longleftrightarrow> ?R")
  proof
    assume l: ?L
    have "\<not> prefix sub (drop 0 (c # cs))" using l by blast
    moreover have "\<not> prefix sub (drop j cs)" if "j \<le> length cs" for j
      using l [rule_format, of "Suc j"] that by simp
    ultimately show ?R by simp
  next
    assume r: ?R
    show ?L
    proof (intro allI impI)
      fix j assume "j \<le> Suc (length cs)"
      then show "\<not> prefix sub (drop j (c # cs))" using r by (cases j) auto
    qed
  qed
  show ?case using Cons.IH split by simp
qed

lemma str_index_Some:
  "str_index s sub = Some i \<longleftrightarrow>
     (i \<le> length s \<and> prefix sub (drop i s) \<and> (\<forall>j<i. \<not> prefix sub (drop j s)))"
proof (induction s arbitrary: i)
  case Nil
  then show ?case by auto
next
  case (Cons c cs)
  show ?case
  proof (cases "prefix sub (c # cs)")
    case True
    have "(\<forall>j<i. \<not> prefix sub (drop j (c # cs))) \<longleftrightarrow> i = 0"
    proof
      assume a: "\<forall>j<i. \<not> prefix sub (drop j (c # cs))"
      show "i = 0"
      proof (rule ccontr)
        assume "i \<noteq> 0"
        then have "\<not> prefix sub (drop 0 (c # cs))" using a by blast
        then show False using True by simp
      qed
    qed simp
    then show ?thesis using True by auto
  next
    case False
    show ?thesis
    proof (cases i)
      case 0
      then show ?thesis using False by simp
    next
      case (Suc k)
      have "(\<forall>j<Suc k. \<not> prefix sub (drop j (c # cs))) \<longleftrightarrow> (\<forall>j<k. \<not> prefix sub (drop j cs))"
        (is "?L \<longleftrightarrow> ?R")
      proof
        assume l: ?L
        show ?R
        proof (intro allI impI)
          fix j assume "j < k"
          then show "\<not> prefix sub (drop j cs)" using l [rule_format, of "Suc j"] by simp
        qed
      next
        assume r: ?R
        show ?L
        proof (intro allI impI)
          fix j assume "j < Suc k"
          then show "\<not> prefix sub (drop j (c # cs))" using r False by (cases j) auto
        qed
      qed
      then show ?thesis using Suc False Cons.IH [of k] by auto
    qed
  qed
qed

lemma rfind_append: "ch \<notin> set b \<Longrightarrow> rfind (a @ ch # b) ch = Some (length a)"
proof (induction a)
  case Nil
  have "rfind b ch = None" using Nil by (induction b) (auto split: option.splits)
  then show ?case by simp
next
  case (Cons x a)
  then show ?case by simp
qed

text \<open>
  A name that ends with \<^verbatim>\<open>.epub\<close> has everything before that suffix as its stem, unless
  nothing comes before it. The token \<^verbatim>\<open>_Volume_\<close> has no dot and is longer than the
  suffix, so it is found in the name exactly where it is found in the stem.
\<close>

lemma stem_epub: "stem (base @ ''.epub'') = (if base = [] then ''.epub'' else base)"
proof -
  have "rfind (base @ CHR ''.'' # ''epub'') CHR ''.'' = Some (length base)"
    by (rule rfind_append) simp
  then show ?thesis by (simp add: stem_def)
qed

lemma prefix_nth: "prefix t xs \<Longrightarrow> k < length t \<Longrightarrow> t ! k = xs ! k"
  by (auto simp: prefix_def nth_append)

lemma str_index_before_suffix:
  assumes idx: "str_index (a @ b) t = Some i"
    and short: "length b < length t"
    and ne: "b \<noteq> []"
    and sep: "hd b \<notin> set t"
  shows "str_index a t = Some i \<and> i + length t \<le> length a"
proof -
  from idx have le: "i \<le> length (a @ b)"
    and pre: "prefix t (drop i (a @ b))"
    and first: "\<forall>j<i. \<not> prefix t (drop j (a @ b))"
    by (simp_all add: str_index_Some)
  from pre have len: "length t \<le> length (a @ b) - i"
    using prefix_length_le by fastforce
  with short have ia: "i < length a" by simp
  have fits: "i + length t \<le> length a"
  proof (rule ccontr)
    assume "\<not> i + length t \<le> length a"
    then have k: "length a - i < length t" using ia by simp
    have "t ! (length a - i) = drop i (a @ b) ! (length a - i)"
      using pre k by (rule prefix_nth)
    also have "\<dots> = hd b" using ia ne by (simp add: nth_append hd_conv_nth)
    finally have "hd b \<in> set t" using k nth_mem by metis
    with sep show False by simp
  qed
  have "prefix t (drop i a)"
  proof -
    from pre ia have "prefix t (drop i a @ b)" by simp
    moreover have "length t \<le> length (drop i a)" using fits by simp
    ultimately show ?thesis
      using prefix_length_prefix [of t "drop i a @ b" "drop i a"] by simp
  qed
  moreover have "\<not> prefix t (drop j a)" if "j < i" for j
  proof
    assume "prefix t (drop j a)"
    then have "prefix t (drop j a @ b)" by simp
    moreover have "drop j (a @ b) = drop j a @ b" using that ia by simp
    ultimately have "prefix t (drop j (a @ b))" by (simp only:)
    with first that show False by blast
  qed
  ultimately have "str_index a t = Some i" using ia by (simp add: str_index_Some)
  with fits show ?thesis by simp
qed

lemma str_index_name_stem:
  assumes "suffix ''.epub'' name" and "str_index name ''_Volume_'' = Some i"
  shows "str_index (stem name) ''_Volume_'' = Some i \<and> take i (stem name) = take i name"
proof -
  from assms(1) obtain base where name: "name = base @ ''.epub''"
    by (auto simp: suffix_def)
  have "str_index (base @ ''.epub'') ''_Volume_'' = Some i" using assms(2) name by simp
  then have b: "str_index base ''_Volume_'' = Some i \<and> i + length ''_Volume_'' \<le> length base"
    by (rule str_index_before_suffix) simp_all
  then have "base \<noteq> []" by auto
  then have "stem name = base" by (simp add: name stem_epub)
  with b name show ?thesis by simp
qed

lemma str_index_prefix_None:
  assumes "str_index s t = None" shows "str_index (take k s) t = None"
proof -
  have "\<not> prefix t (drop j (take k s))" for j
  proof
    assume p: "prefix t (drop j (take k s))"
    have "prefix (drop j (take k s)) (drop j s)"
      by (metis drop_take take_is_prefix)
    with p have "prefix t (drop j s)" by (rule prefix_order.trans)
    moreover have "j \<le> length s \<or> drop j s = []" by auto
    ultimately show False using assms p by (auto simp: str_index_None)
  qed
  then show ?thesis by (simp add: str_index_None)
qed

lemma stem_take: "\<exists>k. stem name = take k name"
  unfolding stem_def by (auto split: option.splits intro: exI [of _ "length name"])

lemma str_index_stem_None:
  "str_index name t = None \<Longrightarrow> str_index (stem name) t = None"
  using stem_take [of name] str_index_prefix_None by metis


text \<open>
  Joining a component to a path string with a slash adds that component to the parsed
  path; the parent of the joined path is the path it was joined to.
\<close>

lemma split_sep_ne: "split_sep s \<noteq> []"
  by (cases s) (auto split: list.splits)

lemma split_sep_append: "split_sep (a @ CHR ''/'' # b) = split_sep a @ split_sep b"
  by (induction a) (auto simp: split_sep_ne split: list.splits)

lemma split_sep_component: "CHR ''/'' \<notin> set c \<Longrightarrow> split_sep c = [c]"
  by (induction c) auto

lemma parts_join:
  assumes "is_component t"
  shows "parts (Path (s @ CHR ''/'' # t)) = parts (Path s) @ [t]"
proof -
  have "split_sep (s @ CHR ''/'' # t) = split_sep s @ [t]"
    using assms by (simp add: split_sep_append split_sep_component is_component_def)
  then show ?thesis using assms by (simp add: Path_def is_component_def)
qed

lemma anchored_join: "s \<noteq> [] \<Longrightarrow> anchored (Path (s @ CHR ''/'' # t)) = anchored (Path s)"
  by (cases s) (simp_all add: Path_def)

lemma parent_join:
  assumes "s \<noteq> []" and "is_component t"
  shows "parent (Path (s @ CHR ''/'' # t)) = Path s"
proof -
  have "parts (parent (Path (s @ CHR ''/'' # t))) = parts (Path s)"
    using assms by (simp add: parent_def parts_join)
  moreover have "anchored (parent (Path (s @ CHR ''/'' # t))) = anchored (Path s)"
    using assms by (simp add: parent_def anchored_join)
  ultimately show ?thesis by simp
qed

lemma resolve_last:
  assumes "is_component t"
  shows "resolve fs (Path (s @ CHR ''/'' # t)) \<noteq> []"
  using assms by (simp add: resolve_def descend_def parts_join is_component_def)

lemma resolve_join:
  assumes "s \<noteq> []" and "is_component t"
  shows "resolve fs (Path (s @ CHR ''/'' # t)) = resolve fs (Path s) @ [t]"
proof -
  have "anchored (Path (s @ CHR ''/'' # t)) = anchored (Path s)"
    using assms by (simp add: anchored_join)
  then show ?thesis
    using assms by (simp add: resolve_def descend_def parts_join is_component_def)
qed

section \<open>Facts about the file system\<close>

text \<open>
  After \<open>rmtree_node\<close> on a directory, nothing is found at its path or below it.
\<close>

lemma lookup_below:
  "lookup n (p @ q) = Some x \<Longrightarrow> q \<noteq> [] \<Longrightarrow> \<exists>es. lookup n p = Some (Dir es)"
proof (induction p arbitrary: n)
  case Nil
  then show ?case by (cases n; cases q) auto
next
  case (Cons c cs)
  then show ?case by (cases n) (auto split: option.splits)
qed

lemma rmtree_node_gone:
  "p \<noteq> [] \<Longrightarrow> lookup n p = Some (Dir es) \<Longrightarrow> lookup (rmtree_node n p) (p @ q) = None"
proof (induction p arbitrary: n)
  case Nil
  then show ?case by simp
next
  case (Cons c cs)
  then show ?case
    by (cases n) (auto split: option.splits simp: AList.update_conv' AList.delete_conv')
qed

text \<open>
  Removing a tree makes no new directory: what is a directory afterwards was one before.
\<close>

lemma rmtree_node_is_dir:
  "is_dir_at (rmtree_node n p) a \<Longrightarrow> is_dir_at n a"
proof (induction p arbitrary: n a)
  case Nil
  then show ?case
    by (cases n; cases a) (auto simp: is_dir_at_def)
next
  case (Cons c cs)
  show ?case
  proof (cases n)
    case (File b)
    then show ?thesis using Cons.prems by simp
  next
    case (Dir es)
    show ?thesis
    proof (cases a)
      case Nil
      then show ?thesis using Dir by (simp add: is_dir_at_def)
    next
      case (Cons x xs)
      show ?thesis
      proof (cases "map_of es c")
        case None
        then show ?thesis using Cons.prems Dir by simp
      next
        case (Some m)
        show ?thesis
        proof (cases "cs = []")
          case True
          then show ?thesis
            using Cons.prems Dir Some \<open>a = x # xs\<close>
            by (cases m)
              (auto simp: is_dir_at_def AList.delete_conv' split: option.splits if_splits)
        next
          case False
          show ?thesis
          proof (cases "x = c")
            case True
            have "is_dir_at (rmtree_node m cs) xs"
              using Cons.prems Dir Some False True \<open>a = x # xs\<close>
              by (simp add: is_dir_at_def AList.update_conv')
            then have "is_dir_at m xs" by (rule Cons.IH)
            then show ?thesis
              using Dir Some True \<open>a = x # xs\<close> by (simp add: is_dir_at_def)
          next
            case neq: False
            then show ?thesis
              using Cons.prems Dir Some False \<open>a = x # xs\<close>
              by (simp add: is_dir_at_def AList.update_conv')
          qed
        qed
      qed
    qed
  qed
qed

text \<open>
  A location that goes on below something that is no directory names nothing, and
  resolution never leaves such a location. Resolution in a tree from which a directory
  was removed either goes as before or ends in such a location.
\<close>

lemma stuck_lookup:
  assumes "stuck root acc"
  shows "lookup root (acc @ q) = None"
proof (rule ccontr)
  assume "lookup root (acc @ q) \<noteq> None"
  then obtain x where x: "lookup root (acc @ q) = Some x" by auto
  from assms obtain a rest where acc: "acc = a @ rest" "rest \<noteq> []" "\<not> is_dir_at root a"
    by (auto simp: stuck_def)
  have "lookup root (a @ (rest @ q)) = Some x" using x acc by simp
  then have "\<exists>es. lookup root a = Some (Dir es)"
    using lookup_below [of root a "rest @ q" x] acc(2) by simp
  with acc(3) show False by (auto simp: is_dir_at_def)
qed

lemma stuck_descend:
  assumes "stuck root acc"
  shows "stuck root (descend root acc c)"
proof -
  have "lookup root acc = None" using stuck_lookup [OF assms, of "[]"] by simp
  then have "descend root acc c = acc @ [c]" by (simp add: descend_def is_dir_at_def)
  moreover have "stuck root (acc @ [c])"
    using assms unfolding stuck_def by (metis append_assoc snoc_eq_iff_butlast)
  ultimately show ?thesis by simp
qed

lemma stuck_foldl: "stuck root acc \<Longrightarrow> stuck root (foldl (descend root) acc cs)"
  by (induction cs arbitrary: acc) (simp_all add: stuck_descend)

lemma resolve_after_removal:
  assumes fewer: "\<And>a. is_dir_at root' a \<Longrightarrow> is_dir_at root a"
  shows "foldl (descend root') acc cs = foldl (descend root) acc cs \<or>
         stuck root' (foldl (descend root') acc cs)"
proof (induction cs arbitrary: acc)
  case Nil
  then show ?case by simp
next
  case (Cons c cs)
  show ?case
  proof (cases "descend root' acc c = descend root acc c")
    case True
    then show ?thesis using Cons.IH [of "descend root acc c"] by simp
  next
    case False
    then have "c = ''..''" and "\<not> is_dir_at root' acc"
      using fewer [of acc] by (auto simp: descend_def split: if_splits)
    then have "stuck root' (descend root' acc c)"
      unfolding stuck_def descend_def by auto
    then have "stuck root' (foldl (descend root') (descend root' acc c) cs)"
      by (rule stuck_foldl)
    then show ?thesis by simp
  qed
qed

lemma resolve_rmtree:
  "resolve (rmtree fs p) q = resolve fs q \<or> stuck (tree (rmtree fs p)) (resolve (rmtree fs p) q)"
  using resolve_after_removal [of "rmtree_node (tree fs) (resolve fs p)" "tree fs"]
    rmtree_node_is_dir
  by (simp add: resolve_def rmtree_def)

lemma glob_suffix: "(name, n) \<in> set (glob fs p suf) \<Longrightarrow> suffix suf name"
  by (auto simp: glob_def split: option.splits node.splits)

lemma zip_write_all_files:
  "zip_write_all z (map (\<lambda>(name, b). (name, File b)) ms) = z \<lparr> members := members z @ ms \<rparr>"
  by (induction ms arbitrary: z) (auto simp: case_prod_beta)

lemmas fs_eval = resolve_def descend_def is_dir_at_def Path_def glob_def suffix_to_prefix

lemmas mkdir_eval = mkdir_def os_mkdir_def mkdir_exist_ok_def is_dir_def resolve_def
  descend_def is_dir_at_def Path_def Let_def

lemmas handler_eval = index_def create_epub_def mkdir_eval rmtree_def parent_def send_file_def
  make_one_bytesio_file_def stem_def glob_def suffix_to_prefix

lemmas example_eval = example_env_def example_request_def example_world_def
  example_timestamp_def example_dirpath_def

section \<open>Properties of the output packager\<close>

text \<open>
  Claim C1. Let the directory list the entries \<open>es\<close> in enumeration order, and let the
  entries whose name ends with \<^verbatim>\<open>.epub\<close> be the regular files \<open>ms\<close> (name and contents,
  in that order), more than one. If the first name contains \<^verbatim>\<open>_Volume_\<close>, first at
  position \<open>i\<close>, the packager returns a deflated archive whose members are exactly
  \<open>ms\<close>, under their base names, with their contents, in enumeration order, and the
  download name is the first file's name cut at position \<open>i\<close>, followed by \<^verbatim>\<open>.zip\<close>.
\<close>

theorem make_one_bytesio_file_archive:
  assumes listing: "lookup (tree fs) (resolve fs (Path directory)) = Some (Dir es)"
    and matching: "filter (\<lambda>(name, n). suffix ''.epub'' name) es = map (\<lambda>(name, b). (name, File b)) ms"
    and many: "1 < length ms"
    and token: "str_index (fst (hd ms)) ''_Volume_'' = Some i"
  shows "make_one_bytesio_file fs directory =
     Inr (Archive \<lparr> compress_type = ZIP_DEFLATED, members = ms \<rparr>, take i (fst (hd ms)) @ ''.zip'')"
proof -
  obtain m1 m2 rest where ms: "ms = m1 # m2 # rest"
    using many by (cases ms; cases "tl ms") auto
  have files: "glob fs (Path directory) ''.epub'' = map (\<lambda>(name, b). (name, File b)) ms"
    using listing matching by (simp add: glob_def)
  then have "(fst m1, File (snd m1)) \<in> set (glob fs (Path directory) ''.epub'')"
    by (simp add: ms case_prod_beta)
  then have "suffix ''.epub'' (fst m1)" by (rule glob_suffix)
  moreover have "str_index (fst m1) ''_Volume_'' = Some i" using token ms by simp
  ultimately have name: "str_index (stem (fst m1)) ''_Volume_'' = Some i"
      "take i (stem (fst m1)) = take i (fst m1)"
    using str_index_name_stem by blast+
  show ?thesis
    unfolding make_one_bytesio_file_def files
    using name by (simp add: ms case_prod_beta zip_write_all_files)
qed

theorem make_one_bytesio_file_archive_witness:
  "make_one_bytesio_file two_volumes ''/srv'' =
     Inr (Archive \<lparr> compress_type = ZIP_DEFLATED,
            members = [(''MySeries_Volume_1.epub'', [1, 2]), (''MySeries_Volume_2.epub'', [3])] \<rparr>,
          ''MySeries.zip'')"
proof -
  let ?ms = "[(''MySeries_Volume_1.epub'', [1, 2]), (''MySeries_Volume_2.epub'', [3 :: 8 word])]"
  have h1: "lookup (tree two_volumes) (resolve two_volumes (Path ''/srv'')) =
      Some (Dir [(''MySeries_Volume_1.epub'', File [1, 2]), (''notes.txt'', File [9]),
                 (''MySeries_Volume_2.epub'', File [3])])"
    by (simp add: two_volumes_def fs_eval)
  have h2: "filter (\<lambda>(name, n). suffix ''.epub'' name)
       [(''MySeries_Volume_1.epub'', File [1, 2]), (''notes.txt'', File [9]),
        (''MySeries_Volume_2.epub'', File [3])] = map (\<lambda>(name, b). (name, File b)) ?ms"
    by (simp add: suffix_to_prefix)
  have h3: "1 < length ?ms" by simp
  have h4: "str_index (fst (hd ?ms)) ''_Volume_'' = Some 8" by simp
  from make_one_bytesio_file_archive [OF h1 h2 h3 h4] show ?thesis by simp
qed

text \<open>
  Claim C2. When exactly one entry of the directory matches \<^verbatim>\<open>*.epub\<close> and it is a regular
  file, the packager returns that file's bytes and that file's name, both unchanged.
\<close>

theorem make_one_bytesio_file_single:
  assumes "glob fs (Path directory) ''.epub'' = [(name, File b)]"
  shows "make_one_bytesio_file fs directory = Inr (Raw b, name)"
  using assms by (simp add: make_one_bytesio_file_def)

theorem make_one_bytesio_file_single_witness:
  "glob one_volume (Path ''/srv'') ''.epub'' = [(''MySeries_Volume_1.epub'', File [1, 2])] \<and>
   make_one_bytesio_file one_volume ''/srv'' = Inr (Raw [1, 2], ''MySeries_Volume_1.epub'')"
proof -
  have h: "glob one_volume (Path ''/srv'') ''.epub'' = [(''MySeries_Volume_1.epub'', File [1, 2])]"
    by (simp add: one_volume_def fs_eval)
  from h make_one_bytesio_file_single [OF h] show ?thesis by simp
qed

text \<open>
  Claim C3. When no entry of the directory matches \<^verbatim>\<open>*.epub\<close>, the packager raises and
  returns no payload. The error is the \<^verbatim>\<open>IndexError\<close> of \<^verbatim>\<open>files[0]\<close> at line 52.
\<close>

theorem make_one_bytesio_file_empty:
  assumes "glob fs (Path directory) ''.epub'' = []"
  shows "make_one_bytesio_file fs directory = Inl IndexError"
  using assms by (simp add: make_one_bytesio_file_def)

theorem make_one_bytesio_file_empty_witness:
  "glob no_volume (Path ''/srv'') ''.epub'' = [] \<and>
   make_one_bytesio_file no_volume ''/srv'' = Inl IndexError"
proof -
  have h: "glob no_volume (Path ''/srv'') ''.epub'' = []"
    by (simp add: no_volume_def fs_eval)
  from h make_one_bytesio_file_empty [OF h] show ?thesis by simp
qed

text \<open>
  Claim C4. When more than one entry matches and the first file's name does not contain
  \<^verbatim>\<open>_Volume_\<close>, the packager raises the \<^verbatim>\<open>ValueError\<close> of \<^verbatim>\<open>str.index\<close> and returns no
  name.
\<close>

theorem make_one_bytesio_file_no_token:
  assumes "1 < length (glob fs (Path directory) ''.epub'')"
    and "str_index (fst (hd (glob fs (Path directory) ''.epub''))) ''_Volume_'' = None"
  shows "make_one_bytesio_file fs directory = Inl ValueError"
proof -
  obtain f g rest where files: "glob fs (Path directory) ''.epub'' = f # g # rest"
    using assms(1) by (cases "glob fs (Path directory) ''.epub''"; cases "tl (glob fs (Path directory) ''.epub'')") auto
  have "str_index (stem (fst f)) ''_Volume_'' = None"
    using assms(2) files by (simp add: str_index_stem_None)
  then show ?thesis by (simp add: make_one_bytesio_file_def files)
qed

theorem make_one_bytesio_file_no_token_witness:
  "1 < length (glob unnamed_volumes (Path ''/srv'') ''.epub'') \<and>
   str_index (fst (hd (glob unnamed_volumes (Path ''/srv'') ''.epub''))) ''_Volume_'' = None \<and>
   make_one_bytesio_file unnamed_volumes ''/srv'' = Inl ValueError"
proof -
  have g: "glob unnamed_volumes (Path ''/srv'') ''.epub'' = [(''a.epub'', File [1]), (''b.epub'', File [2])]"
    by (simp add: unnamed_volumes_def fs_eval)
  have h1: "1 < length (glob unnamed_volumes (Path ''/srv'') ''.epub'')" by (simp add: g)
  have h2: "str_index (fst (hd (glob unnamed_volumes (Path ''/srv'') ''.epub''))) ''_Volume_'' = None"
    by (simp add: g)
  from h1 h2 make_one_bytesio_file_no_token [OF h1 h2] show ?thesis by simp
qed




section \<open>Properties of the request handler\<close>

lemma make_one_bytesio_file_listing:
  assumes "make_one_bytesio_file fs directory = Inr r"
  shows "\<exists>es. lookup (tree fs) (resolve fs (Path directory)) = Some (Dir es)"
proof -
  have "glob fs (Path directory) ''.epub'' \<noteq> []"
    using assms by (auto simp: make_one_bytesio_file_def)
  then show ?thesis by (auto simp: glob_def split: option.splits node.splits)
qed

lemma index_success:
  assumes ok: "index generate_epub e req timestamp w = (Inr resp, w')"
    and out: "environ e ''JNCEP_OUTPUT'' = Some out"
  shows "\<exists>d' r. make_one_bytesio_file d' (out @ ''/'' @ remote_addr req @ ''/'' @ timestamp) = Inr r
      \<and> disk w' = rmtree d' (parent (Path (out @ ''/'' @ remote_addr req @ ''/'' @ timestamp)))
      \<and> last (calls w') = Rmtree (parent (Path (out @ ''/'' @ remote_addr req @ ''/'' @ timestamp)))"
  using ok out
  by (fastforce simp: index_def create_epub_def Let_def
      split: option.splits sum.splits prod.splits)

text \<open>
  Claim C5, as the code has it. When the generation routine raises, the handler returns
  that error at once. The only call it has made is the call of the generation routine:
  the packager is not invoked, and \<^verbatim>\<open>rmtree\<close> is not invoked either, so the file system
  stays as generation left it.
\<close>

theorem index_generation_failure:
  assumes url: "form req ''jnovelclub_url'' = Some jnc_url"
    and spec: "form req ''prepub_parts'' = Some part_spec"
    and out: "environ e ''JNCEP_OUTPUT'' = Some out"
    and made: "mkdir (disk w) (Path (out @ ''/'' @ remote_addr req @ ''/'' @ timestamp)) = Inr d"
    and fails: "generate_epub jnc_url (args e) part_spec
                  (out @ ''/'' @ remote_addr req @ ''/'' @ timestamp) d = (Inl err, d')"
  shows "index generate_epub e req timestamp w =
     (Inl err, \<lparr> disk = d', calls = calls w @
        [GenerateEpub jnc_url part_spec (out @ ''/'' @ remote_addr req @ ''/'' @ timestamp)] \<rparr>)"
  using assms by (simp add: index_def create_epub_def)

theorem index_generation_failure_witness:
  "index failing_generator example_env example_request example_timestamp example_world =
     (Inl (GenerationError ''login failed''),
      \<lparr> disk = \<lparr> tree = Dir [(''app'', Dir [(''out'', Dir [(''203.0.113.7'',
                 Dir [(''2024-05-05_01-02_000001'', Dir [(''Old_Volume_1.epub'', File [7])]),
                      (''2024-05-06_07-08_123456'', Dir [])])])])],
                 cwd = [''app''] \<rparr>,
        calls = [GenerateEpub ''https://j-novel.club/series/my-series'' []
                   ''out/203.0.113.7/2024-05-06_07-08_123456''] \<rparr>)"
proof -
  let ?d = "\<lparr> tree = Dir [(''app'', Dir [(''out'', Dir [(''203.0.113.7'',
                 Dir [(''2024-05-05_01-02_000001'', Dir [(''Old_Volume_1.epub'', File [7])]),
                      (''2024-05-06_07-08_123456'', Dir [])])])])],
                 cwd = [''app''] \<rparr>"
  have url: "form example_request ''jnovelclub_url'' = Some ''https://j-novel.club/series/my-series''"
    and spec: "form example_request ''prepub_parts'' = Some []"
    and out: "environ example_env ''JNCEP_OUTPUT'' = Some ''out''"
    by (simp_all add: example_eval)
  have made: "mkdir (disk example_world)
      (Path (''out'' @ ''/'' @ remote_addr example_request @ ''/'' @ example_timestamp)) = Inr ?d"
    by (simp add: example_eval mkdir_eval)
  have fails: "failing_generator ''https://j-novel.club/series/my-series'' (args example_env) []
      (''out'' @ ''/'' @ remote_addr example_request @ ''/'' @ example_timestamp) ?d =
      (Inl (GenerationError ''login failed''), ?d)"
    by (simp add: failing_generator_def)
  from index_generation_failure [where generate_epub = failing_generator, OF url spec out made fails]
  show ?thesis by (simp add: example_eval)
qed

text \<open>
  The removal of the working directory is not attempted when generation fails. On the
  example request the handler returns the error of the generation routine, calls neither
  the packager nor \<^verbatim>\<open>rmtree\<close>, and the working directory made for the request is still
  there afterwards.
\<close>

theorem index_generation_failure_no_cleanup:
  "fst (index failing_generator example_env example_request example_timestamp example_world) =
     Inl (GenerationError ''login failed'') \<and>
   \<not> list_ex is_package (calls (snd (index failing_generator example_env example_request
                                       example_timestamp example_world))) \<and>
   \<not> list_ex is_rmtree (calls (snd (index failing_generator example_env example_request
                                      example_timestamp example_world))) \<and>
   lookup (tree (disk (snd (index failing_generator example_env example_request
                              example_timestamp example_world))))
     [''app'', ''out'', ''203.0.113.7'', ''2024-05-06_07-08_123456''] = Some (Dir [])"
  by (simp add: handler_eval example_eval failing_generator_def)

text \<open>
  Claim C6, as the code has it. A request without the field \<^verbatim>\<open>jnovelclub_url\<close> is rejected
  with \<^verbatim>\<open>BadRequestKeyError\<close> before anything else happens: the world is unchanged and the
  generation routine does not matter. A request whose field is the empty string is not
  rejected: once the output directory is made, the generation routine is called with
  the empty URL.
\<close>

theorem index_url_field:
  "(form req ''jnovelclub_url'' = None \<longrightarrow>
      index generate_epub e req timestamp w = (Inl (BadRequestKeyError ''jnovelclub_url''), w)) \<and>
   (form req ''jnovelclub_url'' = Some [] \<and> form req ''prepub_parts'' = Some part_spec \<and>
    environ e ''JNCEP_OUTPUT'' = Some out \<and>
    mkdir (disk w) (Path (out @ ''/'' @ remote_addr req @ ''/'' @ timestamp)) = Inr d \<longrightarrow>
      GenerateEpub [] part_spec (out @ ''/'' @ remote_addr req @ ''/'' @ timestamp)
        \<in> set (calls (snd (index generate_epub e req timestamp w))))"
  by (auto simp: index_def create_epub_def Let_def split: sum.splits prod.splits)

theorem index_url_field_witness:
  "index volumes_generator example_env request_no_url example_timestamp example_world =
     (Inl (BadRequestKeyError ''jnovelclub_url''), example_world) \<and>
   GenerateEpub [] [] example_dirpath
     \<in> set (calls (snd (index failing_generator example_env request_empty_url
                           example_timestamp example_world)))"
proof -
  have a: "form request_no_url ''jnovelclub_url'' = None"
    by (simp add: request_no_url_def)
  have b: "form request_empty_url ''jnovelclub_url'' = Some [] \<and>
      form request_empty_url ''prepub_parts'' = Some [] \<and>
      environ example_env ''JNCEP_OUTPUT'' = Some ''out'' \<and>
      mkdir (disk example_world)
        (Path (''out'' @ ''/'' @ remote_addr request_empty_url @ ''/'' @ example_timestamp)) =
      Inr \<lparr> tree = Dir [(''app'', Dir [(''out'', Dir [(''203.0.113.7'',
                 Dir [(''2024-05-05_01-02_000001'', Dir [(''Old_Volume_1.epub'', File [7])]),
                      (''2024-05-06_07-08_123456'', Dir [])])])])],
             cwd = [''app''] \<rparr>"
    by (simp add: request_empty_url_def example_eval mkdir_eval)
  from a b
    index_url_field [of request_no_url volumes_generator example_env example_timestamp example_world,
      THEN conjunct1]
    index_url_field [of request_empty_url failing_generator example_env example_timestamp
      example_world "[]" "''out''", THEN conjunct2]
  show ?thesis by (simp add: request_empty_url_def example_timestamp_def example_dirpath_def)
qed

text \<open>
  An empty URL is not rejected before generation. On the example request whose URL field
  is the empty string, the first call of the handler is the call of the generation
  routine, with the empty URL.
\<close>

theorem index_accepts_empty_url:
  "form request_empty_url ''jnovelclub_url'' = Some [] \<and>
   hd (calls (snd (index volumes_generator example_env request_empty_url
                     example_timestamp example_world))) =
     GenerateEpub [] [] ''out/203.0.113.7/2024-05-06_07-08_123456''"
  by (simp add: handler_eval example_eval request_empty_url_def volumes_generator_def)

text \<open>
  Claim C7. The claim is that a request without the field \<^verbatim>\<open>prepub_parts\<close> is processed as
  a request for all parts. At line 68 the handler reads the field with \<^verbatim>\<open>.get\<close> and logs
  "Requested ALL" when it is absent; at line 74 it reads the field with
  \<^verbatim>\<open>request.form['prepub_parts']\<close>, which raises. On the example request without the field
  the handler returns \<^verbatim>\<open>BadRequestKeyError\<close> and calls nothing.
\<close>

theorem index_missing_parts_rejected:
  "form request_no_parts ''prepub_parts'' = None \<and>
   index volumes_generator example_env request_no_parts example_timestamp example_world =
     (Inl (BadRequestKeyError ''prepub_parts''), example_world)"
  by (simp add: index_def request_no_parts_def)

text \<open>
  Claim C10. The caller's address and the timestamp are single path components. When
  the handler returns a response, its last call is \<^verbatim>\<open>rmtree\<close> on the directory of the
  caller's address, the parent of the working directory, and afterwards nothing exists
  at that directory or anywhere below it: every working directory of that address is
  gone, not only the one made for this request.
\<close>

theorem index_cleanup_removes_address_tree:
  assumes out: "environ e ''JNCEP_OUTPUT'' = Some out"
    and addr: "is_component (remote_addr req)"
    and stamp: "is_component timestamp"
    and ok: "index generate_epub e req timestamp w = (Inr resp, w')"
  shows "last (calls w') = Rmtree (Path (out @ ''/'' @ remote_addr req)) \<and>
     (\<forall>q. lookup (tree (disk w'))
            (resolve (disk w') (Path (out @ ''/'' @ remote_addr req)) @ q) = None)"
proof -
  let ?base = "out @ ''/'' @ remote_addr req"
  let ?dir = "?base @ ''/'' @ timestamp"
  have dir: "out @ ''/'' @ remote_addr req @ ''/'' @ timestamp = ?dir" by simp
  have ne: "?base \<noteq> []" by simp
  from index_success [OF ok out] obtain d' r where
    pack: "make_one_bytesio_file d' ?dir = Inr r"
    and disk: "disk w' = rmtree d' (parent (Path ?dir))"
    and call: "last (calls w') = Rmtree (parent (Path ?dir))"
    unfolding dir by blast
  have par: "parent (Path ?dir) = Path ?base"
    using parent_join [OF ne stamp] by simp
  have res: "resolve d' (Path ?dir) = resolve d' (Path ?base) @ [timestamp]"
    using resolve_join [OF ne stamp, of d'] by simp
  from make_one_bytesio_file_listing [OF pack] obtain es where
    "lookup (tree d') (resolve d' (Path ?base) @ [timestamp]) = Some (Dir es)"
    unfolding res by blast
  then obtain es' where below: "lookup (tree d') (resolve d' (Path ?base)) = Some (Dir es')"
    using lookup_below by blast
  have nonempty: "resolve d' (Path ?base) \<noteq> []"
    using resolve_last [OF addr, of d' out] by simp
  have after: "tree (disk w') = rmtree_node (tree d') (resolve d' (Path ?base))"
    unfolding disk par by (simp add: rmtree_def)
  have "lookup (tree (disk w')) (resolve (disk w') (Path ?base) @ q) = None" for q
  proof -
    from resolve_rmtree [of d' "parent (Path ?dir)" "Path ?base"]
    consider (same) "resolve (disk w') (Path ?base) = resolve d' (Path ?base)"
      | (lost) "stuck (tree (disk w')) (resolve (disk w') (Path ?base))"
      unfolding disk by blast
    then show ?thesis
    proof cases
      case same
      show ?thesis
        unfolding after same using nonempty below by (rule rmtree_node_gone)
    next
      case lost
      then show ?thesis by (rule stuck_lookup)
    qed
  qed
  with call par show ?thesis by simp
qed

theorem index_cleanup_removes_address_tree_witness:
  "index volumes_generator example_env example_request example_timestamp example_world =
     (Inr \<lparr> body = Archive \<lparr> compress_type = ZIP_DEFLATED,
                members = [(''MySeries_Volume_1.epub'', [1, 2]),
                           (''MySeries_Volume_2.epub'', [3])] \<rparr>,
            download_name = ''MySeries.zip'', as_attachment = True \<rparr>,
      \<lparr> disk = \<lparr> tree = Dir [(''app'', Dir [(''out'', Dir [])])], cwd = [''app''] \<rparr>,
        calls = [GenerateEpub ''https://j-novel.club/series/my-series'' [] example_dirpath,
                 MakeOneBytesioFile example_dirpath,
                 Rmtree \<lparr> anchored = False, parts = [''out'', ''203.0.113.7''] \<rparr>] \<rparr>) \<and>
   lookup (tree (disk example_world))
     [''app'', ''out'', ''203.0.113.7'', ''2024-05-05_01-02_000001''] =
     Some (Dir [(''Old_Volume_1.epub'', File [7])]) \<and>
   lookup (tree (disk (snd (index volumes_generator example_env example_request
                              example_timestamp example_world))))
     [''app'', ''out'', ''203.0.113.7'', ''2024-05-05_01-02_000001''] = None"
proof -
  let ?resp = "\<lparr> body = Archive \<lparr> compress_type = ZIP_DEFLATED,
                members = [(''MySeries_Volume_1.epub'', [1, 2]),
                           (''MySeries_Volume_2.epub'', [3])] \<rparr>,
            download_name = ''MySeries.zip'', as_attachment = True \<rparr>"
  let ?w = "\<lparr> disk = \<lparr> tree = Dir [(''app'', Dir [(''out'', Dir [])])], cwd = [''app''] \<rparr>,
        calls = [GenerateEpub ''https://j-novel.club/series/my-series'' [] example_dirpath,
                 MakeOneBytesioFile example_dirpath,
                 Rmtree \<lparr> anchored = False, parts = [''out'', ''203.0.113.7''] \<rparr>] \<rparr>"
  have out: "environ example_env ''JNCEP_OUTPUT'' = Some ''out''"
    by (simp add: example_eval)
  have addr: "is_component (remote_addr example_request)"
    by (simp add: example_eval is_component_def)
  have stamp: "is_component example_timestamp"
    by (simp add: example_eval is_component_def)
  have ok: "index volumes_generator example_env example_request example_timestamp example_world =
      (Inr ?resp, ?w)"
    by (simp add: handler_eval example_eval volumes_generator_def)
  have before: "lookup (tree (disk example_world))
     [''app'', ''out'', ''203.0.113.7'', ''2024-05-05_01-02_000001''] =
     Some (Dir [(''Old_Volume_1.epub'', File [7])])"
    by (simp add: example_eval)
  have "lookup (tree (disk ?w))
      (resolve (disk ?w) (Path (''out'' @ ''/'' @ remote_addr example_request)) @
        [''2024-05-05_01-02_000001'']) = None"
    using index_cleanup_removes_address_tree [OF out addr stamp ok] by blast
  then have "lookup (tree (disk ?w))
      [''app'', ''out'', ''203.0.113.7'', ''2024-05-05_01-02_000001''] = None"
    by (simp add: example_eval fs_eval)
  with ok before show ?thesis by simp
qed

end
